theory Spec2Isabelle
  imports Main "HOL-Library.Word"
begin

section \<open>The Lead Radar Settings form script\<close>

text \<open>
  The development embeds \<^verbatim>\<open>lead_radar_settings.js\<close>: the click handler that the
  \<^verbatim>\<open>refresh\<close> event attaches to the settings form. The handler awaits one remote
  call, reads \<^verbatim>\<open>r?.message?.commit_url\<close>, shows one of two notifications and
  reloads the document. The host framework (remote call, translation, notification,
  reload) lies outside the script and is a parameter of the model; what the handler
  does to the host is recorded as a trace of events, in program order.
\<close>

subsection \<open>Strings and values of the language\<close>

text \<open>
  A string of the language is a sequence of UTF-16 code units. A literal of the script
  is ASCII, so each of its characters is one code unit.
\<close>

type_synonym jsstring = "16 word list"

definition cu :: "char \<Rightarrow> 16 word" where
  "cu c = of_nat (of_char c)"

definition js :: "string \<Rightarrow> jsstring" where
  "js s = map cu s"

text \<open>
  The values a parsed JSON response can hold, and \<^verbatim>\<open>undefined\<close>. Numbers are
  IEEE doubles in the language; the model leaves their type \<open>'n\<close> open and takes the two
  operations on them that the handler can reach (truthiness and conversion to a string)
  from the environment. An object is its list of own properties; a parsed object has
  each key once.
\<close>

datatype 'n jsval =
    JUndefined
  | JNull
  | JBool bool
  | JNumber 'n
  | JString jsstring
  | JArray "'n jsval list"
  | JObject "(jsstring \<times> 'n jsval) list"

datatype 'n jserror =
    TypeError
  | URIError
  | Rejected "'n jsval"

subsection \<open>\<^verbatim>\<open>encodeURI\<close>\<close>

text \<open>
  \<^verbatim>\<open>encodeURI\<close> is the operation \<^verbatim>\<open>Encode\<close> of the language standard with the
  reserved characters and \<^verbatim>\<open>#\<close> left as they are. A code unit outside that set is
  read as a code point (a surrogate pair is one code point), encoded in UTF-8, and every
  octet is written as \<^verbatim>\<open>%XX\<close> in upper-case hexadecimal. A surrogate without its
  partner raises \<^verbatim>\<open>URIError\<close>.
\<close>

definition uriAlpha :: "16 word \<Rightarrow> bool" where
  "uriAlpha c \<longleftrightarrow> (0x41 \<le> c \<and> c \<le> 0x5A) \<or> (0x61 \<le> c \<and> c \<le> 0x7A)"

definition decimalDigit :: "16 word \<Rightarrow> bool" where
  "decimalDigit c \<longleftrightarrow> 0x30 \<le> c \<and> c \<le> 0x39"

definition uriMark :: "16 word \<Rightarrow> bool" where
  "uriMark c \<longleftrightarrow> c \<in> set (js ''-_.!~*'()'')"

definition uriReserved :: "16 word \<Rightarrow> bool" where
  "uriReserved c \<longleftrightarrow> c \<in> set (js '';/?:@&=+$,'')"

definition unescapedURISet :: "16 word \<Rightarrow> bool" where
  "unescapedURISet c \<longleftrightarrow>
     uriAlpha c \<or> decimalDigit c \<or> uriMark c \<or> uriReserved c \<or> c = cu CHR ''#''"

definition isLeadingSurrogate :: "16 word \<Rightarrow> bool" where
  "isLeadingSurrogate c \<longleftrightarrow> 0xD800 \<le> c \<and> c \<le> 0xDBFF"

definition isTrailingSurrogate :: "16 word \<Rightarrow> bool" where
  "isTrailingSurrogate c \<longleftrightarrow> 0xDC00 \<le> c \<and> c \<le> 0xDFFF"

definition UTF16SurrogatePairToCodePoint :: "16 word \<Rightarrow> 16 word \<Rightarrow> nat" where
  "UTF16SurrogatePairToCodePoint lead trail =
     (unat lead - 0xD800) * 0x400 + (unat trail - 0xDC00) + 0x10000"

definition utf8_octets :: "nat \<Rightarrow> nat list" where
  "utf8_octets cp =
     (if cp < 0x80 then [cp]
      else if cp < 0x800 then [0xC0 + cp div 0x40, 0x80 + cp mod 0x40]
      else if cp < 0x10000 then
        [0xE0 + cp div 0x1000, 0x80 + (cp div 0x40) mod 0x40, 0x80 + cp mod 0x40]
      else
        [0xF0 + cp div 0x40000, 0x80 + (cp div 0x1000) mod 0x40,
         0x80 + (cp div 0x40) mod 0x40, 0x80 + cp mod 0x40])"

definition hex_digit :: "nat \<Rightarrow> 16 word" where
  "hex_digit d = (if d < 10 then of_nat (0x30 + d) else of_nat (0x41 + (d - 10)))"

definition escape_octet :: "nat \<Rightarrow> jsstring" where
  "escape_octet b = [cu CHR ''%'', hex_digit (b div 16), hex_digit (b mod 16)]"

definition escape_code_point :: "nat \<Rightarrow> jsstring" where
  "escape_code_point cp = concat (map escape_octet (utf8_octets cp))"

fun Encode :: "jsstring \<Rightarrow> 'n jserror + jsstring" where
  "Encode [] = Inr []"
| "Encode [c] =
     (if unescapedURISet c then Inr [c]
      else if isLeadingSurrogate c \<or> isTrailingSurrogate c then Inl URIError
      else Inr (escape_code_point (unat c)))"
| "Encode (c # d # s) =
     (if unescapedURISet c then map_sum id ((#) c) (Encode (d # s))
      else if \<not> isLeadingSurrogate c \<and> \<not> isTrailingSurrogate c then
        map_sum id ((@) (escape_code_point (unat c))) (Encode (d # s))
      else if isTrailingSurrogate c then Inl URIError
      else if \<not> isTrailingSurrogate d then Inl URIError
      else map_sum id ((@) (escape_code_point (UTF16SurrogatePairToCodePoint c d)))
             (Encode s))"

definition encodeURI :: "jsstring \<Rightarrow> 'n jserror + jsstring" where
  "encodeURI uri = Encode uri"

subsection \<open>Conversions and member access\<close>

text \<open>
  \<^verbatim>\<open>ToBoolean\<close>: \<^verbatim>\<open>undefined\<close>, \<^verbatim>\<open>null\<close>, \<^verbatim>\<open>false\<close>, the empty string and
  the numbers zero and NaN are falsy; every object and array is truthy.
\<close>

fun ToBoolean :: "('n \<Rightarrow> bool) \<Rightarrow> 'n jsval \<Rightarrow> bool" where
  "ToBoolean nt JUndefined = False"
| "ToBoolean nt JNull = False"
| "ToBoolean nt (JBool b) = b"
| "ToBoolean nt (JNumber n) = nt n"
| "ToBoolean nt (JString s) = (s \<noteq> [])"
| "ToBoolean nt (JArray xs) = True"
| "ToBoolean nt (JObject ps) = True"

text \<open>
  \<^verbatim>\<open>ToString\<close>, as a template literal and \<^verbatim>\<open>encodeURI\<close> apply it to their
  argument. An array joins the strings of its elements with commas, \<^verbatim>\<open>undefined\<close>
  and \<^verbatim>\<open>null\<close> elements giving the empty string; a plain object gives
  \<^verbatim>\<open>[object Object]\<close>.
\<close>

fun join :: "jsstring \<Rightarrow> jsstring list \<Rightarrow> jsstring" where
  "join sep [] = []"
| "join sep [x] = x"
| "join sep (x # y # ys) = x @ sep @ join sep (y # ys)"

fun ToString :: "('n \<Rightarrow> jsstring) \<Rightarrow> 'n jsval \<Rightarrow> jsstring" where
  "ToString ns JUndefined = js ''undefined''"
| "ToString ns JNull = js ''null''"
| "ToString ns (JBool b) = (if b then js ''true'' else js ''false'')"
| "ToString ns (JNumber n) = ns n"
| "ToString ns (JString s) = s"
| "ToString ns (JArray xs) =
     join (js '','')
       (map (\<lambda>x. if x = JUndefined \<or> x = JNull then [] else ToString ns x) xs)"
| "ToString ns (JObject ps) = js ''[object Object]''"

text \<open>
  Reading a member with \<^verbatim>\<open>.\<close> raises \<^verbatim>\<open>TypeError\<close> on \<^verbatim>\<open>undefined\<close> and
  \<^verbatim>\<open>null\<close>. On an object it is the own property of that name, or \<^verbatim>\<open>undefined\<close>.
  The handler reads the names \<^verbatim>\<open>message\<close> and \<^verbatim>\<open>commit_url\<close> only, which no
  primitive value and no array has, so there the result is \<^verbatim>\<open>undefined\<close>.
\<close>

fun GetMember :: "'n jsval \<Rightarrow> jsstring \<Rightarrow> 'n jserror + 'n jsval" where
  "GetMember JUndefined k = Inl TypeError"
| "GetMember JNull k = Inl TypeError"
| "GetMember (JObject ps) k =
     Inr (case map_of ps k of None \<Rightarrow> JUndefined | Some v \<Rightarrow> v)"
| "GetMember v k = Inr JUndefined"

definition isNullish :: "'n jsval \<Rightarrow> bool" where
  "isNullish v \<longleftrightarrow> v = JUndefined \<or> v = JNull"

text \<open>
  The optional chain \<^verbatim>\<open>r?.message?.commit_url\<close>: each \<^verbatim>\<open>?.\<close> ends the whole
  chain with \<^verbatim>\<open>undefined\<close> when the value to its left is \<^verbatim>\<open>undefined\<close> or
  \<^verbatim>\<open>null\<close>, and reads the member otherwise.
\<close>

definition commit_url_of :: "'n jsval \<Rightarrow> 'n jserror + 'n jsval" where
  "commit_url_of r =
     (if isNullish r then Inr JUndefined
      else case GetMember r (js ''message'') of
             Inl e \<Rightarrow> Inl e
           | Inr m \<Rightarrow>
               if isNullish m then Inr JUndefined
               else GetMember m (js ''commit_url''))"

subsection \<open>The host and the trace of the handler\<close>

text \<open>
  The options object handed to \<^verbatim>\<open>frappe.call\<close> (its key \<^verbatim>\<open>method\<close> is
  the field \<open>call_method\<close>; the handler sets no \<^verbatim>\<open>args\<close>) and the object handed
  to \<^verbatim>\<open>frappe.msgprint\<close>.
\<close>

record 'n call_opts =
  call_method :: jsstring
  args :: "'n jsval option"
  freeze :: bool

record msgprint_opts =
  title :: jsstring
  message :: jsstring
  indicator :: jsstring

datatype 'n event =
    Call "'n call_opts"
  | Msgprint msgprint_opts
  | ReloadDoc

text \<open>
  What the script takes from outside: how \<^verbatim>\<open>frappe.call\<close> settles for given
  options, the translation function \<^verbatim>\<open>__\<close> (text and optional replacements), how
  \<^verbatim>\<open>frm.reload_doc\<close> settles, and the two number operations of the language.
\<close>

record 'n host =
  frappe_call :: "'n call_opts \<Rightarrow> 'n jserror + 'n jsval"
  translate :: "jsstring \<Rightarrow> jsstring list option \<Rightarrow> jsstring"
  reload_doc :: "'n jserror + unit"
  number_truthy :: "'n \<Rightarrow> bool"
  number_string :: "'n \<Rightarrow> jsstring"

abbreviation publish_opts :: "'n call_opts" where
  "publish_opts \<equiv>
     \<lparr>call_method = js ''ftg_lead_radar.api.publish_config'', args = None, freeze = True\<rparr>"

text \<open>
  The template literal of the handler: the anchor whose \<^verbatim>\<open>href\<close> is
  \<^verbatim>\<open>encodeURI(commit_url)\<close> and whose content is \<^verbatim>\<open>commit_url\<close> itself.
\<close>

definition anchor_html :: "'n host \<Rightarrow> 'n jsval \<Rightarrow> 'n jserror + jsstring" where
  \<open>anchor_html h commit_url =
     (case encodeURI (ToString (number_string h) commit_url) of
        Inl e \<Rightarrow> Inl e
      | Inr href \<Rightarrow>
          Inr (js ''<a href="'' @ href @ js ''" target="_blank" rel="noreferrer">''
               @ ToString (number_string h) commit_url @ js ''</a>''))\<close>

text \<open>
  The notification of each branch. Building the first one can raise, in
  \<^verbatim>\<open>encodeURI\<close>, before \<^verbatim>\<open>frappe.msgprint\<close> is called.
\<close>

definition link_notification :: "'n host \<Rightarrow> 'n jsval \<Rightarrow> 'n jserror + msgprint_opts" where
  "link_notification h commit_url =
     (case anchor_html h commit_url of
        Inl e \<Rightarrow> Inl e
      | Inr a \<Rightarrow>
          Inr \<lparr>title = translate h (js ''Published'') None,
               message = translate h (js ''Committed to GitHub: {0}'') (Some [a]),
               indicator = js ''green''\<rparr>)"

definition plain_notification :: "'n host \<Rightarrow> msgprint_opts" where
  "plain_notification h =
     \<lparr>title = translate h (js ''Published'') None,
      message = translate h (js ''Committed to GitHub.'') None,
      indicator = js ''green''\<rparr>"

text \<open>
  The click handler. The result is the trace of host operations it performed, in order,
  and how its promise settles: \<open>Inr ()\<close> when it resolves, \<open>Inl e\<close> when it rejects
  with \<open>e\<close>. Nothing in the handler catches an error, so each one ends it.
\<close>

definition execute :: "'n host \<Rightarrow> 'n event list \<times> ('n jserror + unit)" where
  "execute h =
     (case frappe_call h publish_opts of
        Inl e \<Rightarrow> ([Call publish_opts], Inl e)
      | Inr r \<Rightarrow>
          (case commit_url_of r of
             Inl e \<Rightarrow> ([Call publish_opts], Inl e)
           | Inr commit_url \<Rightarrow>
               if ToBoolean (number_truthy h) commit_url then
                 (case link_notification h commit_url of
                    Inl e \<Rightarrow> ([Call publish_opts], Inl e)
                  | Inr m \<Rightarrow> ([Call publish_opts, Msgprint m, ReloadDoc], reload_doc h))
               else
                 ([Call publish_opts, Msgprint (plain_notification h), ReloadDoc],
                  reload_doc h)))"

text \<open>
  The \<^verbatim>\<open>refresh\<close> event adds one custom button: its label and the handler behind it.
\<close>

definition refresh :: "'n host \<Rightarrow> (jsstring \<times> ('n event list \<times> ('n jserror + unit))) list" where
  "refresh h = [(translate h (js ''Publish GitOps Config'') None, execute h)]"

subsection \<open>Percent-encoding, stated on code points\<close>

text \<open>
  The code points of a string: a leading surrogate followed by a trailing one is a
  single code point, any other surrogate has none. A string is well formed when every
  surrogate in it belongs to such a pair.
\<close>

fun code_points :: "jsstring \<Rightarrow> nat list option" where
  "code_points [] = Some []"
| "code_points [c] =
     (if isLeadingSurrogate c \<or> isTrailingSurrogate c then None else Some [unat c])"
| "code_points (c # d # s) =
     (if isLeadingSurrogate c then
        (if isTrailingSurrogate d then
           map_option ((#) (UTF16SurrogatePairToCodePoint c d)) (code_points s)
         else None)
      else if isTrailingSurrogate c then None
      else map_option ((#) (unat c)) (code_points (d # s)))"

definition well_formed :: "jsstring \<Rightarrow> bool" where
  "well_formed s \<longleftrightarrow> code_points s \<noteq> None"

text \<open>
  The percent-encoded form of a sequence of code points: a code point of the unescaped
  set stands for itself, any other one is replaced by the escapes of its UTF-8 octets.
\<close>

definition percent_encoded :: "nat list \<Rightarrow> jsstring" where
  "percent_encoded cps =
     concat (map (\<lambda>cp. if cp < 0x80 \<and> unescapedURISet (of_nat cp) then [of_nat cp]
                        else escape_code_point cp) cps)"

definition needs_escape :: "16 word \<Rightarrow> bool" where
  "needs_escape c \<longleftrightarrow> \<not> unescapedURISet c"

subsection \<open>Reading an anchor back from markup\<close>

text \<open>
  To say what the \<^verbatim>\<open>href\<close>, the other attributes and the content of the generated
  anchor are, the markup is read back: \<^verbatim>\<open><a\<close>, then attributes of the form
  \<^verbatim>\<open> name="value"\<close> (a value ends at the first double quote), then \<^verbatim>\<open>>\<close>, then
  the content up to the closing \<^verbatim>\<open></a>\<close> that ends the string. The content is
  taken as it stands in the markup. The reader of the attributes is bounded by the
  length of the markup, which is more than the number of attributes it can hold.
\<close>

fun split_at :: "'a \<Rightarrow> 'a list \<Rightarrow> ('a list \<times> 'a list) option" where
  "split_at d [] = None"
| "split_at d (x # xs) =
     (if x = d then Some ([], xs)
      else map_option (\<lambda>(a, b). (x # a, b)) (split_at d xs))"

definition dquote :: "16 word" where
  "dquote = 0x22"

fun read_attributes ::
  "nat \<Rightarrow> jsstring \<Rightarrow> ((jsstring \<times> jsstring) list \<times> jsstring) option" where
  "read_attributes fuel [] = None"
| "read_attributes 0 (c # t) = None"
| "read_attributes (Suc fuel) (c # t) =
     (if c = cu CHR ''>'' then Some ([], t)
      else if c = cu CHR '' '' then
        (case split_at (cu CHR ''='') t of
           None \<Rightarrow> None
         | Some (name, v) \<Rightarrow>
             (case v of
                [] \<Rightarrow> None
              | q # w \<Rightarrow>
                  if q \<noteq> dquote then None
                  else
                    (case split_at dquote w of
                       None \<Rightarrow> None
                     | Some (val, rest) \<Rightarrow>
                         map_option (\<lambda>(as, r). ((name, val) # as, r))
                           (read_attributes fuel rest))))
      else None)"

record anchor =
  attributes :: "(jsstring \<times> jsstring) list"
  content :: jsstring

definition read_anchor :: "jsstring \<Rightarrow> anchor option" where
  "read_anchor s =
     (if take 2 s \<noteq> js ''<a'' then None
      else
        (case read_attributes (length s) (drop 2 s) of
           None \<Rightarrow> None
         | Some (as, body) \<Rightarrow>
             if drop (length body - 4) body \<noteq> js ''</a>'' then None
             else Some \<lparr>attributes = as, content = take (length body - 4) body\<rparr>))"

definition attribute :: "anchor \<Rightarrow> string \<Rightarrow> jsstring option" where
  "attribute a name = map_of (attributes a) (js name)"

subsection \<open>Observations on traces\<close>

fun is_call :: "'n event \<Rightarrow> bool" where
  "is_call (Call opts) = True"
| "is_call e = False"

fun is_msgprint :: "'n event \<Rightarrow> bool" where
  "is_msgprint (Msgprint m) = True"
| "is_msgprint e = False"

fun is_reload :: "'n event \<Rightarrow> bool" where
  "is_reload ReloadDoc = True"
| "is_reload e = False"

definition occurrences :: "('a \<Rightarrow> bool) \<Rightarrow> 'a list \<Rightarrow> nat" where
  "occurrences P tr = length (filter P tr)"

text \<open>
  \<open>only_after P Q tr\<close>: every event of kind \<open>Q\<close> in the trace has an event of kind \<open>P\<close>
  strictly before it.
\<close>

definition only_after :: "('a \<Rightarrow> bool) \<Rightarrow> ('a \<Rightarrow> bool) \<Rightarrow> 'a list \<Rightarrow> bool" where
  "only_after P Q tr \<longleftrightarrow> (\<forall>i < length tr. Q (tr ! i) \<longrightarrow> (\<exists>j < i. P (tr ! j)))"

subsection \<open>Concrete hosts\<close>

text \<open>
  A host without a translation catalogue: \<^verbatim>\<open>__\<close> gives back the text, with each
  placeholder \<^verbatim>\<open>{i}\<close> (one digit) replaced by the replacement of that index when
  there is one.
\<close>

fun fill :: "jsstring \<Rightarrow> jsstring list \<Rightarrow> jsstring" where
  "fill (a # b # c # s) rs =
     (if a = cu CHR ''{'' \<and> decimalDigit b \<and> c = cu CHR ''}'' \<and> unat b - 0x30 < length rs
      then rs ! (unat b - 0x30) @ fill s rs
      else a # fill (b # c # s) rs)"
| "fill s rs = s"

definition untranslated :: "jsstring \<Rightarrow> jsstring list option \<Rightarrow> jsstring" where
  "untranslated txt replace = (case replace of None \<Rightarrow> txt | Some rs \<Rightarrow> fill txt rs)"

text \<open>
  Hosts whose numbers are the integers, written in decimal as the language writes an
  integral number of moderate size. Each settles the remote call in a given way and
  reloads without error.
\<close>

fun decimal :: "nat \<Rightarrow> jsstring" where
  "decimal n =
     (if n < 10 then [of_nat (0x30 + n)]
      else decimal (n div 10) @ [of_nat (0x30 + n mod 10)])"

declare decimal.simps [simp del]

definition integer_string :: "int \<Rightarrow> jsstring" where
  "integer_string i = (if i < 0 then cu CHR ''-'' # decimal (nat (- i)) else decimal (nat i))"

definition responding :: "(int jserror + int jsval) \<Rightarrow> int host" where
  "responding outcome =
     \<lparr>frappe_call = (\<lambda>opts. outcome),
      translate = untranslated,
      reload_doc = Inr (),
      number_truthy = (\<lambda>n. n \<noteq> 0),
      number_string = integer_string\<rparr>"

definition response_with :: "int jsval \<Rightarrow> int jsval" where
  "response_with v = JObject [(js ''message'', JObject [(js ''commit_url'', v)])]"

text \<open>
  The responses from which the chain finds no \<^verbatim>\<open>commit_url\<close>: anything that is not
  an object, an object whose \<^verbatim>\<open>message\<close> is missing or is not an object, and an
  object whose \<^verbatim>\<open>message\<close> object has no \<^verbatim>\<open>commit_url\<close>.
\<close>

definition lacks_commit_url :: "'n jsval \<Rightarrow> bool" where
  "lacks_commit_url r =
     (case r of
        JObject ps \<Rightarrow>
          (case map_of ps (js ''message'') of
             Some (JObject qs) \<Rightarrow> map_of qs (js ''commit_url'') = None
           | _ \<Rightarrow> True)
      | _ \<Rightarrow> True)"

section \<open>Properties\<close>

subsection \<open>\<^verbatim>\<open>encodeURI\<close> and the code points of its argument\<close>

lemma unescaped_le: "unescapedURISet c \<Longrightarrow> c \<le> 0x7E"
  unfolding unescapedURISet_def uriAlpha_def decimalDigit_def uriMark_def uriReserved_def
    js_def cu_def
  by (auto simp: word_le_nat_alt)

lemma unescaped_not_surrogate:
  "unescapedURISet c \<Longrightarrow> \<not> isLeadingSurrogate c \<and> \<not> isTrailingSurrogate c"
  using unescaped_le [of c] unfolding isLeadingSurrogate_def isTrailingSurrogate_def
  by (auto simp: word_le_nat_alt)

lemma Encode_code_points:
  "(Encode u :: 'n jserror + jsstring) =
     (case code_points u of None \<Rightarrow> Inl URIError | Some cps \<Rightarrow> Inr (percent_encoded cps))"
proof (induction u rule: code_points.induct)
  case 1
  show ?case by (simp add: percent_encoded_def)
next
  case (2 c)
  have "unat c < 0x80 \<and> unescapedURISet c \<longleftrightarrow> unescapedURISet c"
    using unescaped_le [of c] by (auto simp: word_le_nat_alt)
  then show ?case
    by (auto simp: percent_encoded_def unescaped_not_surrogate)
next
  case (3 c d s)
  have u: "unat c < 0x80 \<and> unescapedURISet c \<longleftrightarrow> unescapedURISet c"
    using unescaped_le [of c] by (auto simp: word_le_nat_alt)
  have p: "\<not> UTF16SurrogatePairToCodePoint c d < 0x80"
    by (simp add: UTF16SurrogatePairToCodePoint_def)
  show ?case
  proof (cases "isLeadingSurrogate c")
    case True
    then have nu: "\<not> unescapedURISet c" using unescaped_not_surrogate by blast
    have nt: "\<not> isTrailingSurrogate c" using True
      unfolding isLeadingSurrogate_def isTrailingSurrogate_def
      by (auto simp: word_le_nat_alt)
    show ?thesis using True nu nt 3 p
      by (auto simp: percent_encoded_def split: option.splits)
  next
    case False
    show ?thesis using False 3 u unescaped_not_surrogate [of c]
      by (auto simp: percent_encoded_def split: option.splits)
  qed
qed


lemma hex_digit_unescaped:
  assumes "d < 16"
  shows "unescapedURISet (hex_digit d)"
proof -
  have "d \<in> set [0, 1, 2, 3, 4, 5, 6, 7, 8, 9, 10, 11, 12, 13, 14, 15]"
    using assms by simp arith
  then show ?thesis
    unfolding hex_digit_def unescapedURISet_def uriAlpha_def decimalDigit_def
    by (auto simp: word_le_nat_alt)
qed

lemma utf8_octets_bound: "cp < 0x110000 \<Longrightarrow> \<forall>b \<in> set (utf8_octets cp). b < 256"
  unfolding utf8_octets_def by auto

lemma escape_code_point_chars:
  assumes "cp < 0x110000" "c \<in> set (escape_code_point cp)"
  shows "unescapedURISet c \<or> c = cu CHR ''%''"
proof -
  from assms(2) obtain b where b: "b \<in> set (utf8_octets cp)" "c \<in> set (escape_octet b)"
    by (auto simp: escape_code_point_def)
  then have "b < 256" using utf8_octets_bound [OF assms(1)] by blast
  then have "b div 16 < 16" "b mod 16 < 16" by auto
  then show ?thesis using b(2) hex_digit_unescaped
    by (auto simp: escape_octet_def)
qed

lemma code_points_bound:
  "code_points u = Some cps \<Longrightarrow> \<forall>cp \<in> set cps. cp < 0x110000"
proof (induction u arbitrary: cps rule: code_points.induct)
  case 1
  then show ?case by simp
next
  case (2 c)
  have "unat c < 0x10000" using unsigned_less [of c] by simp
  then show ?case using 2 by (auto split: if_splits)
next
  case (3 c d s)
  have c: "unat c < 0x10000" using unsigned_less [of c] by simp
  have p: "isLeadingSurrogate c \<Longrightarrow> isTrailingSurrogate d \<Longrightarrow>
             UTF16SurrogatePairToCodePoint c d < 0x110000"
    unfolding isLeadingSurrogate_def isTrailingSurrogate_def UTF16SurrogatePairToCodePoint_def
    by (auto simp: word_le_nat_alt)
  show ?case using 3 c p by (auto split: if_splits)
qed

lemma percent_encoded_chars:
  assumes "\<forall>cp \<in> set cps. cp < 0x110000" "c \<in> set (percent_encoded cps)"
  shows "unescapedURISet c \<or> c = cu CHR ''%''"
  using assms escape_code_point_chars
  by (auto simp: percent_encoded_def split: if_splits)

lemma Encode_chars:
  assumes "(Encode u :: 'n jserror + jsstring) = Inr e" "c \<in> set e"
  shows "unescapedURISet c \<or> c = cu CHR ''%''"
proof -
  from assms(1) obtain cps where cps: "code_points u = Some cps" "e = percent_encoded cps"
    by (auto simp: Encode_code_points split: option.splits)
  show ?thesis using percent_encoded_chars [OF code_points_bound [OF cps(1)]] assms(2) cps(2)
    by blast
qed

lemma dquote_escaped: "\<not> unescapedURISet dquote" "dquote \<noteq> cu CHR ''%''"
  unfolding unescapedURISet_def uriAlpha_def decimalDigit_def uriMark_def uriReserved_def
    js_def cu_def dquote_def
  by (auto simp: word_le_nat_alt)

lemma Encode_no_dquote:
  "(Encode u :: 'n jserror + jsstring) = Inr e \<Longrightarrow> dquote \<notin> set e"
  using Encode_chars dquote_escaped by blast

lemma split_at_append: "d \<notin> set xs \<Longrightarrow> split_at d (xs @ d # ys) = Some (xs, ys)"
  by (induction xs) auto

lemma read_anchor_template:
  assumes "dquote \<notin> set href"
  shows \<open>read_anchor (js ''<a href="'' @ href @ js ''" target="_blank" rel="noreferrer">''
            @ text @ js ''</a>'') =
         Some \<lparr>attributes = [(js ''href'', href), (js ''target'', js ''_blank''),
                  (js ''rel'', js ''noreferrer'')], content = text\<rparr>\<close>
  using split_at_append [OF assms]
  by (simp add: read_anchor_def js_def cu_def dquote_def)

lemma encodeURI_raises_iff:
  "(encodeURI u :: 'n jserror + jsstring) = Inl URIError \<longleftrightarrow> \<not> well_formed u"
  by (simp add: encodeURI_def Encode_code_points well_formed_def split: option.splits)

lemma escape_code_point_length: "3 \<le> length (escape_code_point cp)"
  by (simp add: escape_code_point_def utf8_octets_def escape_octet_def)

lemma percent_encoded_Cons:
  "percent_encoded (cp # cps) =
     (if cp < 0x80 \<and> unescapedURISet (of_nat cp) then [of_nat cp] else escape_code_point cp)
     @ percent_encoded cps"
  by (simp add: percent_encoded_def)

lemma unescaped_unat: "unat c < 0x80 \<and> unescapedURISet c \<longleftrightarrow> unescapedURISet c"
  using unescaped_le [of c] by (auto simp: word_le_nat_alt)

lemma percent_encoded_length:
  "code_points u = Some cps \<Longrightarrow>
     length u \<le> length (percent_encoded cps)
     \<and> ((\<exists>c \<in> set u. needs_escape c) \<longrightarrow> length u < length (percent_encoded cps))"
proof (induction u arbitrary: cps rule: code_points.induct)
  case 1
  then show ?case by (simp add: percent_encoded_def)
next
  case (2 c)
  then show ?case
    using escape_code_point_length [of "unat c"] unescaped_unat [of c]
    by (auto simp: percent_encoded_Cons percent_encoded_def needs_escape_def split: if_splits)
next
  case (3 c d s)
  show ?case
  proof (cases "isLeadingSurrogate c")
    case True
    with 3 obtain cps' where cps': "isTrailingSurrogate d" "code_points s = Some cps'"
      "cps = UTF16SurrogatePairToCodePoint c d # cps'"
      by (auto split: if_splits)
    have "length s \<le> length (percent_encoded cps')"
      using 3(1) [OF True cps'(1) cps'(2)] by blast
    moreover have "\<not> UTF16SurrogatePairToCodePoint c d < 0x80"
      by (simp add: UTF16SurrogatePairToCodePoint_def)
    ultimately show ?thesis
      using cps'(3) escape_code_point_length [of "UTF16SurrogatePairToCodePoint c d"]
      by (simp add: percent_encoded_Cons)
  next
    case False
    with 3 obtain cps' where cps': "\<not> isTrailingSurrogate c" "code_points (d # s) = Some cps'"
      "cps = unat c # cps'"
      by (auto split: if_splits)
    have ih: "length (d # s) \<le> length (percent_encoded cps')
      \<and> ((\<exists>c \<in> set (d # s). needs_escape c) \<longrightarrow> length (d # s) < length (percent_encoded cps'))"
      using 3(2) [OF False cps'(1) cps'(2)] .
    show ?thesis
      using ih cps'(3) escape_code_point_length [of "unat c"] unescaped_unat [of c]
      by (auto simp: percent_encoded_Cons needs_escape_def)
  qed
qed

subsection \<open>The handler, case by case\<close>

lemma only_after_single: "only_after P Q [x] \<longleftrightarrow> \<not> Q x"
  by (simp add: only_after_def)

lemma only_after_triple:
  "only_after P Q [x, y, z] \<longleftrightarrow> \<not> Q x \<and> (Q y \<longrightarrow> P x) \<and> (Q z \<longrightarrow> P x \<or> P y)"
  by (auto simp: only_after_def nth_Cons' less_Suc_eq numeral_3_eq_3 numeral_2_eq_2)

lemma GetMember_defined: "\<not> isNullish v \<Longrightarrow> \<exists>w. GetMember v k = Inr w"
  by (cases v) (simp_all add: isNullish_def)

lemma commit_url_of_total: "\<exists>v. commit_url_of r = Inr v"
proof (cases "isNullish r")
  case True
  then show ?thesis by (simp add: commit_url_of_def)
next
  case False
  then obtain m where m: "GetMember r (js ''message'') = Inr m"
    using GetMember_defined by blast
  show ?thesis
  proof (cases "isNullish m")
    case True
    then show ?thesis using False m by (simp add: commit_url_of_def)
  next
    case nm: False
    then obtain w where "GetMember m (js ''commit_url'') = Inr w"
      using GetMember_defined by blast
    then show ?thesis using False m nm by (simp add: commit_url_of_def)
  qed
qed

lemma untranslated_link:
  "untranslated (js ''Committed to GitHub: {0}'') (Some [a]) = js ''Committed to GitHub: '' @ a"
  by (simp add: untranslated_def js_def cu_def decimalDigit_def)

lemma untranslated_text: "untranslated txt None = txt"
  by (simp add: untranslated_def)

lemma execute_rejected:
  "frappe_call h publish_opts = Inl e \<Longrightarrow> execute h = ([Call publish_opts], Inl e)"
  by (simp add: execute_def)

lemma execute_falsy:
  assumes "frappe_call h publish_opts = Inr r" "commit_url_of r = Inr v"
    "\<not> ToBoolean (number_truthy h) v"
  shows "execute h = ([Call publish_opts, Msgprint (plain_notification h), ReloadDoc], reload_doc h)"
  using assms by (simp add: execute_def)

lemma execute_truthy:
  assumes "frappe_call h publish_opts = Inr r" "commit_url_of r = Inr v"
    "ToBoolean (number_truthy h) v"
  shows "execute h =
    (case link_notification h v of
       Inl e \<Rightarrow> ([Call publish_opts], Inl e)
     | Inr m \<Rightarrow> ([Call publish_opts, Msgprint m, ReloadDoc], reload_doc h))"
  using assms by (simp add: execute_def)

lemma anchor_html_cases:
  \<open>anchor_html h v =
     (case code_points (ToString (number_string h) v) of
        None \<Rightarrow> Inl URIError
      | Some cps \<Rightarrow>
          Inr (js ''<a href="'' @ percent_encoded cps
               @ js ''" target="_blank" rel="noreferrer">''
               @ ToString (number_string h) v @ js ''</a>''))\<close>
  by (simp add: anchor_html_def encodeURI_def Encode_code_points split: option.splits)

lemma execute_shapes:
  "(\<exists>e. execute h = ([Call publish_opts], Inl e))
   \<or> (\<exists>r m. frappe_call h publish_opts = Inr r
         \<and> execute h = ([Call publish_opts, Msgprint m, ReloadDoc], reload_doc h)
         \<and> title m = translate h (js ''Published'') None
         \<and> indicator m = js ''green'')"
  by (auto simp: execute_def link_notification_def plain_notification_def split: sum.splits)

lemma anchor_html_read:
  assumes "anchor_html h v = Inr a"
  shows \<open>\<exists>cps. code_points (ToString (number_string h) v) = Some cps
    \<and> (encodeURI (ToString (number_string h) v) :: 'n jserror + jsstring)
        = Inr (percent_encoded cps)
    \<and> a = js ''<a href="'' @ percent_encoded cps
          @ js ''" target="_blank" rel="noreferrer">''
          @ ToString (number_string h) v @ js ''</a>''
    \<and> read_anchor a =
        Some \<lparr>attributes = [(js ''href'', percent_encoded cps), (js ''target'', js ''_blank''),
                 (js ''rel'', js ''noreferrer'')],
              content = ToString (number_string h) v\<rparr>\<close>
proof -
  from assms obtain cps where cps: "code_points (ToString (number_string h) v) = Some cps"
    and a: \<open>a = js ''<a href="'' @ percent_encoded cps
          @ js ''" target="_blank" rel="noreferrer">''
          @ ToString (number_string h) v @ js ''</a>''\<close>
    by (auto simp: anchor_html_cases split: option.splits)
  have e: "(Encode (ToString (number_string h) v) :: 'n jserror + jsstring)
      = Inr (percent_encoded cps)"
    using cps by (simp add: Encode_code_points)
  have q: "dquote \<notin> set (percent_encoded cps)"
    using Encode_no_dquote [OF e] .
  show ?thesis using cps a e read_anchor_template [OF q] by (simp add: encodeURI_def)
qed

lemma well_formed_anchor:
  "well_formed (ToString (number_string h) v) \<Longrightarrow> \<exists>a. anchor_html h v = Inr a"
  by (auto simp: anchor_html_cases well_formed_def)

lemma execute_link:
  assumes "frappe_call h publish_opts = Inr r" "commit_url_of r = Inr v"
    "ToBoolean (number_truthy h) v" "anchor_html h v = Inr a"
  shows "execute h =
    ([Call publish_opts,
      Msgprint \<lparr>title = translate h (js ''Published'') None,
                message = translate h (js ''Committed to GitHub: {0}'') (Some [a]),
                indicator = js ''green''\<rparr>,
      ReloadDoc], reload_doc h)"
  using assms by (simp add: execute_truthy link_notification_def)

lemma execute_raises:
  assumes "frappe_call h publish_opts = Inr r" "commit_url_of r = Inr v"
    "ToBoolean (number_truthy h) v" "anchor_html h v = Inl e"
  shows "execute h = ([Call publish_opts], Inl e)"
  using assms by (simp add: execute_truthy link_notification_def)

lemma shown_link_notification:
  assumes "frappe_call h publish_opts = Inr r" "commit_url_of r = Inr v"
    "ToBoolean (number_truthy h) v" "Msgprint m \<in> set (fst (execute h))"
  shows "\<exists>a. anchor_html h v = Inr a
    \<and> message m = translate h (js ''Committed to GitHub: {0}'') (Some [a])"
proof (cases "anchor_html h v")
  case (Inl e)
  then show ?thesis using execute_raises [OF assms(1-3) Inl] assms(4) by simp
next
  case (Inr a)
  then show ?thesis using execute_link [OF assms(1-3) Inr] assms(4) by auto
qed

subsection \<open>Evaluating the concrete hosts\<close>

lemmas charset_defs =
  js_def cu_def unescapedURISet_def uriAlpha_def decimalDigit_def uriMark_def uriReserved_def
  isLeadingSurrogate_def isTrailingSurrogate_def

lemmas escape_defs =
  percent_encoded_def escape_code_point_def escape_octet_def utf8_octets_def hex_digit_def

lemma responding_simps:
  "frappe_call (responding outcome) opts = outcome"
  "translate (responding outcome) = untranslated"
  "reload_doc (responding outcome) = Inr ()"
  "number_truthy (responding outcome) = (\<lambda>n. n \<noteq> 0)"
  "number_string (responding outcome) = integer_string"
  by (simp_all add: responding_def)

lemma commit_url_of_response_with: "commit_url_of (response_with v) = Inr v"
  by (simp add: commit_url_of_def response_with_def isNullish_def js_def cu_def)

lemma execute_responding:
  assumes "ToBoolean (\<lambda>n. n \<noteq> 0) v" "code_points (ToString integer_string v) = Some cps"
  shows \<open>execute (responding (Inr (response_with v))) =
    ([Call publish_opts,
      Msgprint \<lparr>title = js ''Published'',
                message = js ''Committed to GitHub: '' @ js ''<a href="'' @ percent_encoded cps
                  @ js ''" target="_blank" rel="noreferrer">'' @ ToString integer_string v
                  @ js ''</a>'',
                indicator = js ''green''\<rparr>,
      ReloadDoc], Inr ())\<close>
proof -
  let ?h = "responding (Inr (response_with v))"
  have a: \<open>anchor_html ?h v = Inr (js ''<a href="'' @ percent_encoded cps
                  @ js ''" target="_blank" rel="noreferrer">'' @ ToString integer_string v
                  @ js ''</a>'')\<close>
    using assms(2) by (simp add: anchor_html_cases responding_simps)
  have \<open>execute ?h =
    ([Call publish_opts,
      Msgprint \<lparr>title = translate ?h (js ''Published'') None,
                message = translate ?h (js ''Committed to GitHub: {0}'')
                  (Some [js ''<a href="'' @ percent_encoded cps
                  @ js ''" target="_blank" rel="noreferrer">'' @ ToString integer_string v
                  @ js ''</a>'']),
                indicator = js ''green''\<rparr>,
      ReloadDoc], reload_doc ?h)\<close>
    by (rule execute_link [OF _ commit_url_of_response_with _ a])
       (simp_all add: responding_simps assms(1))
  then show ?thesis
    by (simp add: responding_simps untranslated_text untranslated_link)
qed

subsection \<open>Claims about the handler\<close>

text \<open>
  Claim C3. When the remote call to \<^verbatim>\<open>publish_config\<close> rejects, the handler shows no
  notification and does not reload the form: the call is the only host operation of the
  run. The handler's promise rejects with the very error of the call, neither caught nor
  changed, so the failure reaches the host's own error reporting only.
\<close>

theorem rejected_call_ends_handler:
  assumes "frappe_call h publish_opts = Inl e"
  shows "execute h = ([Call publish_opts], Inl e)
    \<and> occurrences is_msgprint (fst (execute h)) = 0
    \<and> occurrences is_reload (fst (execute h)) = 0"
  using assms by (simp add: execute_def occurrences_def)

theorem rejected_call_ends_handler_witness:
  "frappe_call (responding (Inl (Rejected (JString (js ''403''))))) publish_opts
     = Inl (Rejected (JString (js ''403'')))
   \<and> execute (responding (Inl (Rejected (JString (js ''403'')))))
     = ([Call publish_opts], Inl (Rejected (JString (js ''403''))))
   \<and> occurrences is_msgprint (fst (execute (responding (Inl (Rejected (JString (js ''403''))))))) = 0
   \<and> occurrences is_reload (fst (execute (responding (Inl (Rejected (JString (js ''403''))))))) = 0"
proof -
  have call: "frappe_call (responding (Inl (Rejected (JString (js ''403''))))) publish_opts
     = Inl (Rejected (JString (js ''403'')))"
    by (simp add: responding_def)
  show ?thesis by (rule conjI [OF call rejected_call_ends_handler [OF call]])
qed

text \<open>
  A response without a \<^verbatim>\<open>commit_url\<close> to find yields \<^verbatim>\<open>undefined\<close>.
\<close>

lemma lacks_commit_url_undefined:
  "lacks_commit_url r \<Longrightarrow> commit_url_of r = Inr JUndefined"
  by (cases r)
     (auto simp: lacks_commit_url_def commit_url_of_def isNullish_def
           split: option.splits jsval.splits)

text \<open>
  Claim C10. For every resolved value of the remote call, reading
  \<^verbatim>\<open>r?.message?.commit_url\<close> yields a value and never raises. When the response is
  \<^verbatim>\<open>undefined\<close>, \<^verbatim>\<open>null\<close>, has no \<^verbatim>\<open>message\<close> object, or its
  \<^verbatim>\<open>message\<close> has no \<^verbatim>\<open>commit_url\<close>, the value read is \<^verbatim>\<open>undefined\<close> and
  the handler shows the generic notification and then reloads.
\<close>

theorem extraction_never_raises:
  "(\<exists>v. commit_url_of r = Inr v)
   \<and> (lacks_commit_url r \<longrightarrow>
        commit_url_of r = Inr JUndefined
        \<and> (frappe_call h publish_opts = Inr r \<longrightarrow>
             execute h =
               ([Call publish_opts, Msgprint (plain_notification h), ReloadDoc], reload_doc h)))"
  using commit_url_of_total [of r] lacks_commit_url_undefined [of r]
    execute_falsy [of h r JUndefined]
  by auto

theorem extraction_never_raises_witness:
  "lacks_commit_url (JUndefined :: int jsval)
   \<and> frappe_call (responding (Inr JUndefined)) publish_opts = Inr JUndefined
   \<and> commit_url_of (JUndefined :: int jsval) = Inr JUndefined
   \<and> execute (responding (Inr JUndefined)) =
       ([Call publish_opts, Msgprint (plain_notification (responding (Inr JUndefined))), ReloadDoc],
        Inr ())"
proof -
  have l: "lacks_commit_url (JUndefined :: int jsval)" by (simp add: lacks_commit_url_def)
  have c: "frappe_call (responding (Inr JUndefined)) publish_opts = Inr JUndefined"
    by (simp add: responding_def)
  have r: "reload_doc (responding (Inr JUndefined)) = Inr ()" by (simp add: responding_def)
  show ?thesis
    using l c r extraction_never_raises [of "JUndefined :: int jsval" "responding (Inr JUndefined)"]
    by simp
qed

text \<open>
  Claim C4. For every successful response whose \<^verbatim>\<open>commit_url\<close> is absent or falsy,
  the empty object among them, the handler shows one notification, whose body is the
  generic confirmation text (the translation of \<^verbatim>\<open>Committed to GitHub.\<close>, with no
  replacement passed; without a catalogue that very text, in which no tag opens), and
  reloads the form exactly once.
\<close>

theorem falsy_commit_url_plain_notification:
  assumes "frappe_call h publish_opts = Inr r" "commit_url_of r = Inr v"
    "\<not> ToBoolean (number_truthy h) v"
  shows "execute h =
      ([Call publish_opts, Msgprint (plain_notification h), ReloadDoc], reload_doc h)
    \<and> occurrences is_msgprint (fst (execute h)) = 1
    \<and> occurrences is_reload (fst (execute h)) = 1
    \<and> message (plain_notification h) = translate h (js ''Committed to GitHub.'') None
    \<and> (translate h = untranslated \<longrightarrow>
         message (plain_notification h) = js ''Committed to GitHub.''
         \<and> cu CHR ''<'' \<notin> set (message (plain_notification h)))
    \<and> commit_url_of (JObject [] :: 'n jsval) = Inr JUndefined
    \<and> \<not> ToBoolean (number_truthy h) JUndefined"
proof -
  have e: "execute h =
      ([Call publish_opts, Msgprint (plain_notification h), ReloadDoc], reload_doc h)"
    using assms by (rule execute_falsy)
  have m: "message (plain_notification h) = translate h (js ''Committed to GitHub.'') None"
    by (simp add: plain_notification_def)
  have u: "cu CHR ''<'' \<notin> set (js ''Committed to GitHub.'')"
    by (simp add: js_def cu_def)
  have o: "commit_url_of (JObject [] :: 'n jsval) = Inr JUndefined"
    by (simp add: commit_url_of_def isNullish_def)
  show ?thesis using e m u o by (simp add: occurrences_def untranslated_text)
qed

theorem falsy_commit_url_plain_notification_witness:
  "frappe_call (responding (Inr (response_with (JString [])))) publish_opts
     = Inr (response_with (JString []))
   \<and> commit_url_of (response_with (JString [])) = Inr (JString [])
   \<and> \<not> ToBoolean (number_truthy (responding (Inr (response_with (JString []))))) (JString [])
   \<and> translate (responding (Inr (response_with (JString [])))) = untranslated
   \<and> execute (responding (Inr (response_with (JString [])))) =
       ([Call publish_opts,
         Msgprint \<lparr>title = js ''Published'', message = js ''Committed to GitHub.'',
                   indicator = js ''green''\<rparr>,
         ReloadDoc], Inr ())"
proof -
  let ?h = "responding (Inr (response_with (JString [])))"
  have c: "frappe_call ?h publish_opts = Inr (response_with (JString []))"
    by (simp add: responding_def)
  have x: "commit_url_of (response_with (JString [])) = Inr (JString [])"
    by (simp add: commit_url_of_def response_with_def isNullish_def js_def cu_def)
  have f: "\<not> ToBoolean (number_truthy ?h) (JString [])" by simp
  have t: "translate ?h = untranslated" by (simp add: responding_def)
  have p: "plain_notification ?h =
      \<lparr>title = js ''Published'', message = js ''Committed to GitHub.'',
       indicator = js ''green''\<rparr>"
    by (simp add: plain_notification_def t untranslated_text)
  have r: "reload_doc ?h = Inr ()" by (simp add: responding_def)
  from falsy_commit_url_plain_notification [OF c x f]
  have "execute ?h = ([Call publish_opts, Msgprint (plain_notification ?h), ReloadDoc], reload_doc ?h)"
    by blast
  then show ?thesis using c x f t p r by simp
qed

text \<open>
  Claim C7. Whichever notification the handler shows, with or without the link, its
  title is \<^verbatim>\<open>__("Published")\<close> (the text \<^verbatim>\<open>Published\<close> itself on a host without
  catalogue) and its indicator is \<^verbatim>\<open>green\<close>, the colour of success.
\<close>

theorem notification_title_and_indicator:
  assumes "Msgprint m \<in> set (fst (execute h))"
  shows "title m = translate h (js ''Published'') None
    \<and> indicator m = js ''green''
    \<and> (translate h = untranslated \<longrightarrow> title m = js ''Published'')"
  using assms execute_shapes [of h] by (auto simp: untranslated_text)

theorem notification_title_and_indicator_witness:
  "Msgprint \<lparr>title = js ''Published'', message = js ''Committed to GitHub.'',
             indicator = js ''green''\<rparr>
     \<in> set (fst (execute (responding (Inr (JObject [])))))
   \<and> translate (responding (Inr (JObject []))) = untranslated
   \<and> title \<lparr>title = js ''Published'', message = js ''Committed to GitHub.'',
             indicator = js ''green''\<rparr> = js ''Published''
   \<and> indicator \<lparr>title = js ''Published'', message = js ''Committed to GitHub.'',
             indicator = js ''green''\<rparr> = js ''green''"
proof -
  let ?m = "\<lparr>title = js ''Published'', message = js ''Committed to GitHub.'',
             indicator = js ''green''\<rparr>"
  have t: "translate (responding (Inr (JObject []))) = untranslated"
    by (simp add: responding_def)
  have m: "Msgprint ?m \<in> set (fst (execute (responding (Inr (JObject [])))))"
    by (simp add: execute_def responding_def commit_url_of_def isNullish_def
        plain_notification_def untranslated_text)
  from notification_title_and_indicator [OF m] t
  have "title ?m = js ''Published'' \<and> indicator ?m = js ''green''" by blast
  then show ?thesis using m t by blast
qed

text \<open>
  Claim C5. In every run of the handler a reload comes only after a notification, and
  a notification only after the remote call, and only when that call has resolved: the
  order is call, notification, reload.
\<close>

theorem handler_order:
  "only_after is_msgprint is_reload (fst (execute h))
   \<and> only_after is_call is_msgprint (fst (execute h))
   \<and> ((\<exists>e \<in> set (fst (execute h)). is_msgprint e \<or> is_reload e) \<longrightarrow>
        (\<exists>r. frappe_call h publish_opts = Inr r))"
  using execute_shapes [of h]
  by (auto simp: only_after_single only_after_triple)

theorem handler_order_witness:
  "(\<exists>e \<in> set (fst (execute (responding (Inr (JNull))))). is_msgprint e \<or> is_reload e)
   \<and> (\<exists>r. frappe_call (responding (Inr JNull)) publish_opts = Inr r)
   \<and> only_after is_msgprint is_reload (fst (execute (responding (Inr JNull))))
   \<and> only_after is_call is_msgprint (fst (execute (responding (Inr JNull))))"
proof -
  have "ReloadDoc \<in> set (fst (execute (responding (Inr JNull))))"
    by (simp add: execute_def responding_def commit_url_of_def isNullish_def)
  then have e: "\<exists>e \<in> set (fst (execute (responding (Inr (JNull))))). is_msgprint e \<or> is_reload e"
    using is_reload.simps(1) by blast
  show ?thesis using e handler_order [of "responding (Inr JNull)"] by blast
qed

text \<open>
  Claim C1, as stated for every non-empty string, fails: when \<^verbatim>\<open>commit_url\<close> is the
  single code unit \<^verbatim>\<open>\uD800\<close>, a leading surrogate without its partner,
  \<^verbatim>\<open>encodeURI\<close> raises \<^verbatim>\<open>URIError\<close> while the notification is being built. The
  handler then shows nothing, does not reload, and rejects.
\<close>

theorem unpaired_surrogate_no_notification:
  "frappe_call (responding (Inr (response_with (JString [0xD800])))) publish_opts
     = Inr (response_with (JString [0xD800]))
   \<and> commit_url_of (response_with (JString [0xD800])) = Inr (JString [0xD800])
   \<and> ToBoolean (number_truthy (responding (Inr (response_with (JString [0xD800])))))
        (JString [0xD800])
   \<and> execute (responding (Inr (response_with (JString [0xD800]))))
     = ([Call publish_opts], Inl URIError)"
proof -
  let ?h = "responding (Inr (response_with (JString [0xD800])))"
  have c: "frappe_call ?h publish_opts = Inr (response_with (JString [0xD800]))"
    by (simp add: responding_def)
  have x: "commit_url_of (response_with (JString [0xD800])) = Inr (JString [0xD800])"
    by (simp add: commit_url_of_def response_with_def isNullish_def js_def cu_def)
  have t: "ToBoolean (number_truthy ?h) (JString [0xD800])" by simp
  have a: "anchor_html ?h (JString [0xD800]) = Inl URIError"
    by (simp add: anchor_html_cases isLeadingSurrogate_def)
  show ?thesis using c x t execute_raises [OF c x t a] by blast
qed

text \<open>
  Claim C1, amended. For every successful response whose \<^verbatim>\<open>commit_url\<close> is a
  non-empty string that is well formed (every surrogate in it belongs to a pair), the
  handler shows exactly one notification and then reloads the form exactly once. The
  title of the notification is \<^verbatim>\<open>__("Published")\<close>; its body is
  \<^verbatim>\<open>__("Committed to GitHub: {0}", [a])\<close> for an anchor \<open>a\<close> whose \<^verbatim>\<open>href\<close> is the
  percent-encoded \<^verbatim>\<open>commit_url\<close>, as \<^verbatim>\<open>encodeURI\<close> returns it, whose content is
  \<^verbatim>\<open>commit_url\<close> as it is, and whose \<^verbatim>\<open>target\<close> is \<^verbatim>\<open>_blank\<close>. On a host without
  catalogue the title is \<^verbatim>\<open>Published\<close> and the body is \<^verbatim>\<open>Committed to GitHub: \<close>
  followed by the anchor.
\<close>

theorem well_formed_commit_url_link_notification:
  assumes "frappe_call h publish_opts = Inr r" "commit_url_of r = Inr (JString u)"
    "u \<noteq> []" "well_formed u"
  shows \<open>\<exists>cps a.
      code_points u = Some cps
    \<and> (encodeURI u :: 'n jserror + jsstring) = Inr (percent_encoded cps)
    \<and> execute h =
        ([Call publish_opts,
          Msgprint \<lparr>title = translate h (js ''Published'') None,
                    message = translate h (js ''Committed to GitHub: {0}'') (Some [a]),
                    indicator = js ''green''\<rparr>,
          ReloadDoc], reload_doc h)
    \<and> read_anchor a =
        Some \<lparr>attributes = [(js ''href'', percent_encoded cps), (js ''target'', js ''_blank''),
                 (js ''rel'', js ''noreferrer'')],
              content = u\<rparr>
    \<and> (translate h = untranslated \<longrightarrow>
         translate h (js ''Published'') None = js ''Published''
         \<and> translate h (js ''Committed to GitHub: {0}'') (Some [a])
             = js ''Committed to GitHub: '' @ a)\<close>
proof -
  have t: "ToBoolean (number_truthy h) (JString u)" using assms(3) by simp
  obtain a where a: "anchor_html h (JString u) = Inr a"
    using well_formed_anchor [of h "JString u"] assms(4) by auto
  from anchor_html_read [OF a] obtain cps where cps: "code_points u = Some cps"
    "(encodeURI u :: 'n jserror + jsstring) = Inr (percent_encoded cps)"
    "read_anchor a =
        Some \<lparr>attributes = [(js ''href'', percent_encoded cps), (js ''target'', js ''_blank''),
                 (js ''rel'', js ''noreferrer'')],
              content = u\<rparr>"
    by auto
  show ?thesis
    using cps execute_link [OF assms(1) assms(2) t a]
    by (auto simp: untranslated_text untranslated_link)
qed

theorem well_formed_commit_url_link_notification_witness:
  \<open>frappe_call
      (responding (Inr (response_with (JString (js ''https://github.com/org/repo/commit/abc123'')))))
      publish_opts
     = Inr (response_with (JString (js ''https://github.com/org/repo/commit/abc123'')))
   \<and> commit_url_of (response_with (JString (js ''https://github.com/org/repo/commit/abc123'')))
     = Inr (JString (js ''https://github.com/org/repo/commit/abc123''))
   \<and> js ''https://github.com/org/repo/commit/abc123'' \<noteq> []
   \<and> well_formed (js ''https://github.com/org/repo/commit/abc123'')
   \<and> (\<exists>a. execute
        (responding (Inr (response_with (JString (js ''https://github.com/org/repo/commit/abc123'')))))
       = ([Call publish_opts,
           Msgprint \<lparr>title = js ''Published'', message = js ''Committed to GitHub: '' @ a,
                     indicator = js ''green''\<rparr>,
           ReloadDoc], Inr ())
      \<and> read_anchor a =
          Some \<lparr>attributes =
                  [(js ''href'', js ''https://github.com/org/repo/commit/abc123''),
                   (js ''target'', js ''_blank''), (js ''rel'', js ''noreferrer'')],
                content = js ''https://github.com/org/repo/commit/abc123''\<rparr>)\<close>
proof -
  let ?u = "js ''https://github.com/org/repo/commit/abc123''"
  let ?h = "responding (Inr (response_with (JString ?u)))"
  have c: "frappe_call ?h publish_opts = Inr (response_with (JString ?u))"
    by (simp add: responding_def)
  have x: "commit_url_of (response_with (JString ?u)) = Inr (JString ?u)"
    by (simp add: commit_url_of_def response_with_def isNullish_def js_def cu_def)
  have n: "?u \<noteq> []" by (simp add: js_def)
  have cp: "code_points ?u = Some (map unat ?u)"
    by (simp add: charset_defs)
  have w: "well_formed ?u" using cp by (simp add: well_formed_def)
  have pe: "percent_encoded (map unat ?u) = ?u"
    by (simp add: percent_encoded_def charset_defs)
  have t: "translate ?h = untranslated" "reload_doc ?h = Inr ()"
    by (simp_all add: responding_def)
  from well_formed_commit_url_link_notification [OF c x n w]
  obtain cps a where r: "code_points ?u = Some cps"
    "execute ?h =
        ([Call publish_opts,
          Msgprint \<lparr>title = translate ?h (js ''Published'') None,
                    message = translate ?h (js ''Committed to GitHub: {0}'') (Some [a]),
                    indicator = js ''green''\<rparr>,
          ReloadDoc], reload_doc ?h)"
    "read_anchor a =
        Some \<lparr>attributes = [(js ''href'', percent_encoded cps), (js ''target'', js ''_blank''),
                 (js ''rel'', js ''noreferrer'')],
              content = ?u\<rparr>"
    "translate ?h = untranslated \<longrightarrow>
         translate ?h (js ''Published'') None = js ''Published''
         \<and> translate ?h (js ''Committed to GitHub: {0}'') (Some [a])
             = js ''Committed to GitHub: '' @ a"
    by blast
  have cps: "percent_encoded cps = ?u" using r(1) cp pe by simp
  have "execute ?h
       = ([Call publish_opts,
           Msgprint \<lparr>title = js ''Published'', message = js ''Committed to GitHub: '' @ a,
                     indicator = js ''green''\<rparr>,
           ReloadDoc], Inr ())"
    using r(2) r(4) t by simp
  moreover have "read_anchor a =
          Some \<lparr>attributes =
                  [(js ''href'', ?u), (js ''target'', js ''_blank''), (js ''rel'', js ''noreferrer'')],
                content = ?u\<rparr>"
    using r(3) cps by simp
  ultimately show ?thesis using c x n w by blast
qed

text \<open>
  Claim C2. For every \<^verbatim>\<open>commit_url\<close> string with a character that
  \<^verbatim>\<open>encodeURI\<close> escapes, the \<^verbatim>\<open>href\<close> of the generated anchor is the
  percent-encoded form of the string: it differs from the string and consists of
  unescaped characters and \<^verbatim>\<open>%\<close> only. The content of the anchor is the string
  itself. (The delimiters of a query string, \<^verbatim>\<open>?\<close>, \<^verbatim>\<open>=\<close> and \<^verbatim>\<open>&\<close>, are
  reserved characters, which the encoding keeps; the example below has both a space and
  a query string.)
\<close>

theorem href_percent_encoded_text_verbatim:
  assumes "\<exists>c \<in> set u. needs_escape c" "anchor_html h (JString u) = Inr a"
  shows \<open>\<exists>cps.
      code_points u = Some cps
    \<and> (encodeURI u :: 'n jserror + jsstring) = Inr (percent_encoded cps)
    \<and> read_anchor a =
        Some \<lparr>attributes = [(js ''href'', percent_encoded cps), (js ''target'', js ''_blank''),
                 (js ''rel'', js ''noreferrer'')],
              content = u\<rparr>
    \<and> percent_encoded cps \<noteq> u
    \<and> (\<forall>c \<in> set (percent_encoded cps). \<not> needs_escape c \<or> c = cu CHR ''%'')\<close>
proof -
  from anchor_html_read [OF assms(2)] obtain cps where cps: "code_points u = Some cps"
    "(encodeURI u :: 'n jserror + jsstring) = Inr (percent_encoded cps)"
    "read_anchor a =
        Some \<lparr>attributes = [(js ''href'', percent_encoded cps), (js ''target'', js ''_blank''),
                 (js ''rel'', js ''noreferrer'')],
              content = u\<rparr>"
    by auto
  have "length u < length (percent_encoded cps)"
    using percent_encoded_length [OF cps(1)] assms(1) by blast
  then have ne: "percent_encoded cps \<noteq> u" by auto
  have ch: "\<forall>c \<in> set (percent_encoded cps). \<not> needs_escape c \<or> c = cu CHR ''%''"
    using percent_encoded_chars [OF code_points_bound [OF cps(1)]]
    by (auto simp: needs_escape_def)
  show ?thesis using cps ne ch by blast
qed

theorem href_percent_encoded_text_verbatim_witness:
  \<open>(\<exists>c \<in> set (js ''https://x.io/a b?q=1''). needs_escape c)
   \<and> anchor_html (responding (Inr JNull)) (JString (js ''https://x.io/a b?q=1''))
     = Inr (js ''<a href="https://x.io/a%20b?q=1" target="_blank" rel="noreferrer">https://x.io/a b?q=1</a>'')
   \<and> read_anchor
       (js ''<a href="https://x.io/a%20b?q=1" target="_blank" rel="noreferrer">https://x.io/a b?q=1</a>'')
     = Some \<lparr>attributes = [(js ''href'', js ''https://x.io/a%20b?q=1''),
                 (js ''target'', js ''_blank''), (js ''rel'', js ''noreferrer'')],
              content = js ''https://x.io/a b?q=1''\<rparr>\<close>
proof -
  let ?u = "js ''https://x.io/a b?q=1''"
  let ?a = \<open>js ''<a href="https://x.io/a%20b?q=1" target="_blank" rel="noreferrer">https://x.io/a b?q=1</a>''\<close>
  have "needs_escape (cu CHR '' '')" "cu CHR '' '' \<in> set ?u"
    by (simp_all add: needs_escape_def charset_defs)
  then have n: "\<exists>c \<in> set ?u. needs_escape c" by blast
  have cp: "code_points ?u = Some (map unat ?u)"
    by (simp add: charset_defs)
  have pe: "percent_encoded (map unat ?u) = js ''https://x.io/a%20b?q=1''"
    by (simp add: percent_encoded_def charset_defs escape_code_point_def escape_octet_def
        utf8_octets_def hex_digit_def)
  have a: "anchor_html (responding (Inr JNull)) (JString ?u) = Inr ?a"
    by (simp add: anchor_html_cases cp pe) (simp add: js_def)
  from href_percent_encoded_text_verbatim [OF n a]
  have "read_anchor ?a =
        Some \<lparr>attributes = [(js ''href'', js ''https://x.io/a%20b?q=1''),
                 (js ''target'', js ''_blank''), (js ''rel'', js ''noreferrer'')],
              content = ?u\<rparr>"
    using cp pe by auto
  then show ?thesis using n a by blast
qed




text \<open>
  Claim C8. For every truthy \<^verbatim>\<open>commit_url\<close>, the anchor in the notification that
  the handler shows carries the attributes \<^verbatim>\<open>target="_blank"\<close> and
  \<^verbatim>\<open>rel="noreferrer"\<close>.
\<close>

theorem anchor_target_and_rel:
  assumes "frappe_call h publish_opts = Inr r" "commit_url_of r = Inr v"
    "ToBoolean (number_truthy h) v" "Msgprint m \<in> set (fst (execute h))"
  shows "\<exists>a anc. anchor_html h v = Inr a
    \<and> message m = translate h (js ''Committed to GitHub: {0}'') (Some [a])
    \<and> read_anchor a = Some anc
    \<and> attribute anc ''target'' = Some (js ''_blank'')
    \<and> attribute anc ''rel'' = Some (js ''noreferrer'')"
proof -
  from shown_link_notification [OF assms] obtain a where a: "anchor_html h v = Inr a"
    "message m = translate h (js ''Committed to GitHub: {0}'') (Some [a])"
    by blast
  from anchor_html_read [OF a(1)] obtain cps where
    r: "read_anchor a =
        Some \<lparr>attributes = [(js ''href'', percent_encoded cps), (js ''target'', js ''_blank''),
                 (js ''rel'', js ''noreferrer'')],
              content = ToString (number_string h) v\<rparr>"
    by blast
  let ?anc = "\<lparr>attributes = [(js ''href'', percent_encoded cps), (js ''target'', js ''_blank''),
                 (js ''rel'', js ''noreferrer'')],
              content = ToString (number_string h) v\<rparr>"
  have "attribute ?anc ''target'' = Some (js ''_blank'')"
    "attribute ?anc ''rel'' = Some (js ''noreferrer'')"
    by (simp_all add: attribute_def js_def cu_def)
  then show ?thesis using a r by blast
qed

theorem anchor_target_and_rel_witness:
  \<open>frappe_call (responding (Inr (response_with (JBool True)))) publish_opts
     = Inr (response_with (JBool True))
   \<and> commit_url_of (response_with (JBool True) :: int jsval) = Inr (JBool True)
   \<and> ToBoolean (number_truthy (responding (Inr (response_with (JBool True))))) (JBool True)
   \<and> Msgprint \<lparr>title = js ''Published'',
        message = js ''Committed to GitHub: <a href="true" target="_blank" rel="noreferrer">true</a>'',
        indicator = js ''green''\<rparr>
       \<in> set (fst (execute (responding (Inr (response_with (JBool True))))))
   \<and> (\<exists>anc. read_anchor (js ''<a href="true" target="_blank" rel="noreferrer">true</a>'') = Some anc
        \<and> attribute anc ''target'' = Some (js ''_blank'')
        \<and> attribute anc ''rel'' = Some (js ''noreferrer''))\<close>
proof -
  let ?h = "responding (Inr (response_with (JBool True)))"
  let ?m = \<open>\<lparr>title = js ''Published'',
        message = js ''Committed to GitHub: <a href="true" target="_blank" rel="noreferrer">true</a>'',
        indicator = js ''green''\<rparr>\<close>
  have c: "frappe_call ?h publish_opts = Inr (response_with (JBool True))"
    by (simp add: responding_simps)
  have x: "commit_url_of (response_with (JBool True) :: int jsval) = Inr (JBool True)"
    by (rule commit_url_of_response_with)
  have t: "ToBoolean (number_truthy ?h) (JBool True)" by simp
  have cp: "code_points (ToString integer_string (JBool True :: int jsval))
      = Some (map unat (js ''true''))"
    by (simp add: charset_defs)
  have pe: "percent_encoded (map unat (js ''true'')) = js ''true''"
    by (simp add: percent_encoded_def charset_defs)
  have m: "Msgprint ?m \<in> set (fst (execute ?h))"
    using execute_responding [of "JBool True", OF _ cp]
    by (simp add: pe) (simp add: js_def)
  have a: \<open>anchor_html ?h (JBool True)
      = Inr (js ''<a href="true" target="_blank" rel="noreferrer">true</a>'')\<close>
    using cp by (simp add: anchor_html_cases responding_simps pe) (simp add: js_def)
  from anchor_target_and_rel [OF c x t m] a
  have \<open>\<exists>anc. read_anchor (js ''<a href="true" target="_blank" rel="noreferrer">true</a>'') = Some anc
        \<and> attribute anc ''target'' = Some (js ''_blank'')
        \<and> attribute anc ''rel'' = Some (js ''noreferrer'')\<close>
    by auto
  then show ?thesis using c x t m by blast
qed

text \<open>
  Claim C9. For every truthy \<^verbatim>\<open>commit_url\<close>, the content of the anchor in the
  notification is the string of \<^verbatim>\<open>commit_url\<close> itself: the anchor is a start tag,
  that string unchanged, and \<^verbatim>\<open></a>\<close>. Only the \<^verbatim>\<open>href\<close> went through
  \<^verbatim>\<open>encodeURI\<close>. Characters that mean something in markup therefore stand
  unescaped in the body, as \<^verbatim>\<open><b>&\<close> does in the example below.
\<close>

theorem link_text_unescaped:
  assumes "frappe_call h publish_opts = Inr r" "commit_url_of r = Inr v"
    "ToBoolean (number_truthy h) v" "Msgprint m \<in> set (fst (execute h))"
  shows "\<exists>a anc start href.
      message m = translate h (js ''Committed to GitHub: {0}'') (Some [a])
    \<and> (encodeURI (ToString (number_string h) v) :: 'n jserror + jsstring) = Inr href
    \<and> read_anchor a = Some anc
    \<and> attribute anc ''href'' = Some href
    \<and> content anc = ToString (number_string h) v
    \<and> a = start @ ToString (number_string h) v @ js ''</a>''
    \<and> (translate h = untranslated \<longrightarrow>
         message m = js ''Committed to GitHub: '' @ start @ ToString (number_string h) v
                       @ js ''</a>'')"
proof -
  from shown_link_notification [OF assms] obtain a where a: "anchor_html h v = Inr a"
    "message m = translate h (js ''Committed to GitHub: {0}'') (Some [a])"
    by blast
  from anchor_html_read [OF a(1)] obtain cps where
    e: "(encodeURI (ToString (number_string h) v) :: 'n jserror + jsstring)
        = Inr (percent_encoded cps)"
    and s: \<open>a = js ''<a href="'' @ percent_encoded cps
          @ js ''" target="_blank" rel="noreferrer">''
          @ ToString (number_string h) v @ js ''</a>''\<close>
    and r: "read_anchor a =
        Some \<lparr>attributes = [(js ''href'', percent_encoded cps), (js ''target'', js ''_blank''),
                 (js ''rel'', js ''noreferrer'')],
              content = ToString (number_string h) v\<rparr>"
    by blast
  let ?anc = "\<lparr>attributes = [(js ''href'', percent_encoded cps), (js ''target'', js ''_blank''),
                 (js ''rel'', js ''noreferrer'')],
              content = ToString (number_string h) v\<rparr>"
  let ?start = \<open>js ''<a href="'' @ percent_encoded cps
          @ js ''" target="_blank" rel="noreferrer">''\<close>
  have h: "attribute ?anc ''href'' = Some (percent_encoded cps)"
    by (simp add: attribute_def)
  have c: "content ?anc = ToString (number_string h) v" by simp
  have s': "a = ?start @ ToString (number_string h) v @ js ''</a>''" using s by simp
  have u: "translate h = untranslated \<longrightarrow>
         message m = js ''Committed to GitHub: '' @ ?start @ ToString (number_string h) v
                       @ js ''</a>''"
    using a(2) s by (simp add: untranslated_link)
  show ?thesis using a(2) e r h c s' u by blast
qed

theorem link_text_unescaped_witness:
  \<open>frappe_call (responding (Inr (response_with (JString (js ''https://x.io/<b>&c''))))) publish_opts
     = Inr (response_with (JString (js ''https://x.io/<b>&c'')))
   \<and> commit_url_of (response_with (JString (js ''https://x.io/<b>&c'')) :: int jsval)
     = Inr (JString (js ''https://x.io/<b>&c''))
   \<and> ToBoolean (number_truthy (responding (Inr (response_with (JString (js ''https://x.io/<b>&c''))))))
       (JString (js ''https://x.io/<b>&c''))
   \<and> Msgprint \<lparr>title = js ''Published'',
        message = js ''Committed to GitHub: <a href="https://x.io/%3Cb%3E&c" target="_blank" rel="noreferrer">https://x.io/<b>&c</a>'',
        indicator = js ''green''\<rparr>
       \<in> set (fst (execute (responding (Inr (response_with (JString (js ''https://x.io/<b>&c'')))))))
   \<and> (\<exists>anc. read_anchor
          (js ''<a href="https://x.io/%3Cb%3E&c" target="_blank" rel="noreferrer">https://x.io/<b>&c</a>'')
          = Some anc
        \<and> attribute anc ''href'' = Some (js ''https://x.io/%3Cb%3E&c'')
        \<and> content anc = js ''https://x.io/<b>&c'')\<close>
proof -
  let ?u = "js ''https://x.io/<b>&c''"
  let ?h = "responding (Inr (response_with (JString ?u)))"
  let ?a = \<open>js ''<a href="https://x.io/%3Cb%3E&c" target="_blank" rel="noreferrer">https://x.io/<b>&c</a>''\<close>
  let ?m = \<open>\<lparr>title = js ''Published'',
        message = js ''Committed to GitHub: <a href="https://x.io/%3Cb%3E&c" target="_blank" rel="noreferrer">https://x.io/<b>&c</a>'',
        indicator = js ''green''\<rparr>\<close>
  have c: "frappe_call ?h publish_opts = Inr (response_with (JString ?u))"
    by (simp add: responding_simps)
  have x: "commit_url_of (response_with (JString ?u) :: int jsval) = Inr (JString ?u)"
    by (rule commit_url_of_response_with)
  have t: "ToBoolean (number_truthy ?h) (JString ?u)" by (simp add: js_def)
  have cp: "code_points (ToString integer_string (JString ?u :: int jsval)) = Some (map unat ?u)"
    by (simp add: charset_defs)
  have pe: "percent_encoded (map unat ?u) = js ''https://x.io/%3Cb%3E&c''"
    by (simp add: escape_defs charset_defs)
  have m: "Msgprint ?m \<in> set (fst (execute ?h))"
    using execute_responding [of "JString ?u", OF _ cp]
    by (simp add: pe) (simp add: js_def)
  have a: "anchor_html ?h (JString ?u) = Inr ?a"
    using cp by (simp add: anchor_html_cases responding_simps pe) (simp add: js_def)
  have e: "(encodeURI (ToString (number_string ?h) (JString ?u)) :: int jserror + jsstring)
      = Inr (js ''https://x.io/%3Cb%3E&c'')"
    using cp by (simp add: encodeURI_def Encode_code_points pe)
  from link_text_unescaped [OF c x t m]
  obtain a' anc start href where r:
    "message ?m = translate ?h (js ''Committed to GitHub: {0}'') (Some [a'])"
    "(encodeURI (ToString (number_string ?h) (JString ?u)) :: int jserror + jsstring) = Inr href"
    "read_anchor a' = Some anc" "attribute anc ''href'' = Some href"
    "content anc = ToString (number_string ?h) (JString ?u)"
    by blast
  have "js ''Committed to GitHub: '' @ ?a = js ''Committed to GitHub: '' @ a'"
    using r(1) by (simp add: responding_simps untranslated_link) (simp add: js_def)
  then have "a' = ?a" by simp
  then have "read_anchor ?a = Some anc \<and> attribute anc ''href'' = Some (js ''https://x.io/%3Cb%3E&c'')
        \<and> content anc = ?u"
    using r e by simp
  then show ?thesis using c x t m by blast
qed

end
